theory Spec2Isabelle
  imports Main
begin

section \<open>Outcomes of a call\<close>

text \<open>
  The three ways in which the code can reach undefined behaviour: a member call through
  a null \<open>shared_ptr\<close>, \<open>rethrow_exception\<close> of a null \<open>exception_ptr\<close>, and locking a
  \<open>std::mutex\<close> that the calling thread already owns (in practice the thread then waits
  for itself and the call never returns).
\<close>

datatype fault = NullDereference | NullRethrow | Relock

text \<open>
  A C++ call either returns a value, leaves through an exception, has undefined
  behaviour, or blocks: it waits on a condition variable whose predicate is false in the
  state it was called in, so it does not return unless another thread changes that
  state.
\<close>

datatype ('e, 'a) outcome = Returns 'a | Throws 'e | Undefined fault | Blocks

fun and_then :: "('e, 'a) outcome \<Rightarrow> ('a \<Rightarrow> ('e, 'b) outcome) \<Rightarrow> ('e, 'b) outcome" where
  "and_then (Returns x) f = f x"
| "and_then (Throws e) f = Throws e"
| "and_then (Undefined u) f = Undefined u"
| "and_then Blocks f = Blocks"

section \<open>The data model\<close>

datatype TaskStatus = kPending | kCompleted | kFailed | kCanceled

type_synonym addr = nat

text \<open>A \<open>shared_ptr\<close> is the address of a live object, or null (\<open>None\<close>).\<close>

type_synonym ptr = "addr option"

type_synonym time_point = int

text \<open>
  The private members of \<open>class Task\<close>. Every method body is taken as one atomic step
  and \<open>notify_all\<close> has no effect on the members. The mutex is not a member of the
  record: the only method that calls other methods while it holds the lock is
  \<open>CanBeExecuted\<close>, and the lock is written into its model below. The members keep
  their names without the trailing underscore; \<open>e_ptr\<close> is \<open>None\<close> for a null
  \<open>exception_ptr\<close>.
\<close>

record 'e Task =
  e_ptr :: "'e option"
  status :: TaskStatus
  dependencies :: "ptr list"
  triggers :: "ptr list"
  deadline :: time_point

text \<open>
  The objects a \<open>shared_ptr\<close> can point to. A \<open>shared_ptr\<close> keeps its referent alive,
  so every address holds an object: \<open>obj h a\<close> is the \<open>Task\<close> subobject at address \<open>a\<close>
  and \<open>future_value h a\<close> the member \<open>value_\<close> of a \<open>Future<T>\<close> there; \<open>vector_value h a\<close>
  is the member \<open>value_\<close> of a \<open>Future<std::vector<T>>\<close>, the type of the futures that
  \<open>WhenAll\<close> and \<open>WhenAllBeforeDeadline\<close> construct. The member \<open>fn_\<close> is a closure
  over the heap itself and is kept outside it: it is the body \<open>Run\<close> that the worker loop
  is given for each address.
\<close>

record ('e, 'v) heap =
  obj :: "addr \<Rightarrow> 'e Task"
  future_value :: "addr \<Rightarrow> 'v"
  vector_value :: "addr \<Rightarrow> 'v list"

section \<open>UnboundedBlockingQueue\<close>

record 'h UnboundedBlockingQueue =
  stopped :: bool
  buffer :: "'h list"

definition Put :: "'h \<Rightarrow> 'h UnboundedBlockingQueue \<Rightarrow> bool \<times> 'h UnboundedBlockingQueue" where
  "Put task q =
     (if stopped q then (False, q)
      else (True, q\<lparr>buffer := buffer q @ [task]\<rparr>))"

text \<open>
  \<open>Take\<close> waits until the queue is stopped or not empty: on an open, empty queue it
  blocks. The result \<open>None\<close> is the null pointer returned by a stopped, empty queue.
\<close>

definition Take :: "ptr UnboundedBlockingQueue \<Rightarrow> ('e, ptr \<times> ptr UnboundedBlockingQueue) outcome" where
  "Take q =
     (case buffer q of
        [] \<Rightarrow> if stopped q then Returns (None, q) else Blocks
      | front # rest \<Rightarrow> Returns (front, q\<lparr>buffer := rest\<rparr>))"

definition CloseImpl :: "bool \<Rightarrow> 'h UnboundedBlockingQueue \<Rightarrow> 'h UnboundedBlockingQueue" where
  "CloseImpl clear q =
     (let q1 = q\<lparr>stopped := True\<rparr>
      in if clear then q1\<lparr>buffer := []\<rparr> else q1)"

definition Close :: "'h UnboundedBlockingQueue \<Rightarrow> 'h UnboundedBlockingQueue" where
  "Close q = CloseImpl False q"

definition Queue_Cancel :: "'h UnboundedBlockingQueue \<Rightarrow> 'h UnboundedBlockingQueue" where
  "Queue_Cancel q = CloseImpl True q"

definition IsClosed :: "'h UnboundedBlockingQueue \<Rightarrow> bool" where
  "IsClosed q = stopped q"

section \<open>Task\<close>

definition AddDependency :: "ptr \<Rightarrow> ('e, 'm) Task_scheme \<Rightarrow> ('e, 'm) Task_scheme" where
  "AddDependency dep t = t\<lparr>dependencies := dependencies t @ [dep]\<rparr>"

definition AddTrigger :: "ptr \<Rightarrow> ('e, 'm) Task_scheme \<Rightarrow> ('e, 'm) Task_scheme" where
  "AddTrigger dep t = t\<lparr>triggers := triggers t @ [dep]\<rparr>"

definition SetTimeTrigger :: "time_point \<Rightarrow> ('e, 'm) Task_scheme \<Rightarrow> ('e, 'm) Task_scheme" where
  "SetTimeTrigger at t = t\<lparr>deadline := at\<rparr>"

definition IsCompleted :: "('e, 'm) Task_scheme \<Rightarrow> bool" where
  "IsCompleted t = (status t = kCompleted)"

definition IsFailed :: "('e, 'm) Task_scheme \<Rightarrow> bool" where
  "IsFailed t = (status t = kFailed)"

definition IsCanceled :: "('e, 'm) Task_scheme \<Rightarrow> bool" where
  "IsCanceled t = (status t = kCanceled)"

definition IsFinished :: "('e, 'm) Task_scheme \<Rightarrow> bool" where
  "IsFinished t = (status t \<noteq> kPending)"

definition GetError :: "('e, 'm) Task_scheme \<Rightarrow> 'e option" where
  "GetError t = e_ptr t"

definition Cancel :: "('e, 'm) Task_scheme \<Rightarrow> ('e, 'm) Task_scheme" where
  "Cancel t = (if status t = kPending then t\<lparr>status := kCanceled\<rparr> else t)"

text \<open>
  \<open>Wait\<close> loops on the condition variable while the status is \<open>kPending\<close>: in a given
  state it returns exactly when the status is not \<open>kPending\<close>.
\<close>

definition Wait :: "('e, 'm) Task_scheme \<Rightarrow> ('e, unit) outcome" where
  "Wait t = (if status t = kPending then Blocks else Returns ())"

definition SaveError :: "'e option \<Rightarrow> ('e, 'm) Task_scheme \<Rightarrow> ('e, 'm) Task_scheme" where
  "SaveError p t = t\<lparr>e_ptr := p, status := kFailed\<rparr>"

definition CompleteTask :: "('e, 'm) Task_scheme \<Rightarrow> ('e, 'm) Task_scheme" where
  "CompleteTask t = t\<lparr>status := kCompleted\<rparr>"

text \<open>
  The member call \<open>entry->IsFinished()\<close> as \<open>CanBeExecuted\<close> makes it: the caller holds
  the mutex of the task at address \<open>self\<close>, and \<open>IsFinished\<close> locks the mutex of the
  task it is called on. Through a null pointer the call is undefined; on the task
  \<open>self\<close> itself it locks a mutex its thread already owns.
\<close>

definition locked_IsFinished ::
    "addr \<Rightarrow> (addr \<Rightarrow> ('e, 'm) Task_scheme) \<Rightarrow> ptr \<Rightarrow> ('e, bool) outcome" where
  "locked_IsFinished self h entry =
     (case entry of
        None \<Rightarrow> Undefined NullDereference
      | Some a \<Rightarrow> if a = self then Undefined Relock else Returns (IsFinished (h a)))"

text \<open>
  The first loop of \<open>CanBeExecuted\<close>: \<open>Returns False\<close> is its \<open>return false\<close>,
  \<open>Returns True\<close> is the loop running to its end. The test \<open>dependency && ...\<close>
  evaluates the member call only for a non-null entry.
\<close>

fun dependencies_loop ::
    "addr \<Rightarrow> (addr \<Rightarrow> ('e, 'm) Task_scheme) \<Rightarrow> ptr list \<Rightarrow> ('e, bool) outcome" where
  "dependencies_loop self h [] = Returns True"
| "dependencies_loop self h (dependency # rest) =
     (if dependency \<noteq> None then
        and_then (locked_IsFinished self h dependency) (\<lambda>finished.
          if \<not> finished then Returns False else dependencies_loop self h rest)
      else dependencies_loop self h rest)"

text \<open>
  The second loop: \<open>Returns True\<close> is its \<open>return true\<close>, \<open>Returns False\<close> is the
  loop running to its end.
\<close>

fun triggers_loop ::
    "addr \<Rightarrow> (addr \<Rightarrow> ('e, 'm) Task_scheme) \<Rightarrow> ptr list \<Rightarrow> ('e, bool) outcome" where
  "triggers_loop self h [] = Returns False"
| "triggers_loop self h (trigger # rest) =
     (if trigger \<noteq> None then
        and_then (locked_IsFinished self h trigger) (\<lambda>finished.
          if finished then Returns True else triggers_loop self h rest)
      else triggers_loop self h rest)"

text \<open>
  \<open>CanBeExecuted\<close> of the task at address \<open>self\<close>, which holds its own mutex for the
  whole call; \<open>now\<close> is the reading of \<open>system_clock::now()\<close> inside the call.
\<close>

definition CanBeExecuted ::
    "time_point \<Rightarrow> (addr \<Rightarrow> ('e, 'm) Task_scheme) \<Rightarrow> addr \<Rightarrow> ('e, bool) outcome" where
  "CanBeExecuted now h self =
     and_then (dependencies_loop self h (dependencies (h self))) (\<lambda>passed.
       if \<not> passed then Returns False
       else if now < deadline (h self) then Returns False
       else and_then (triggers_loop self h (triggers (h self))) (\<lambda>found.
         if found then Returns True
         else Returns (triggers (h self) = [])))"

section \<open>Future\<close>

definition rethrow_exception :: "'e option \<Rightarrow> ('e, 'a) outcome" where
  "rethrow_exception p = (case p of None \<Rightarrow> Undefined NullRethrow | Some e \<Rightarrow> Throws e)"

text \<open>\<open>Future<T>::Get\<close> of the object at address \<open>a\<close>.\<close>

definition Get :: "('e, 'v) heap \<Rightarrow> addr \<Rightarrow> ('e, 'v) outcome" where
  "Get h a =
     and_then (Wait (obj h a)) (\<lambda>_.
       if IsFailed (obj h a) then rethrow_exception (GetError (obj h a))
       else Returns (future_value h a))"

section \<open>Executor\<close>

text \<open>
  The executor's state is its queue together with the heap of the objects the handles
  point to; the worker threads themselves are not represented.
\<close>

type_synonym ('e, 'v) executor = "ptr UnboundedBlockingQueue \<times> ('e, 'v) heap"

definition update_obj ::
    "addr \<Rightarrow> ('e Task \<Rightarrow> 'e Task) \<Rightarrow> ('e, 'v) heap \<Rightarrow> ('e, 'v) heap" where
  "update_obj a f h = h\<lparr>obj := (obj h)(a := f (obj h a))\<rparr>"

definition Submit :: "ptr \<Rightarrow> ('e, 'v) executor \<Rightarrow> ('e, ('e, 'v) executor) outcome" where
  "Submit task s =
     (case s of (q, h) \<Rightarrow>
        if IsClosed q then
          (case task of
             None \<Rightarrow> Undefined NullDereference
           | Some a \<Rightarrow> Returns (q, update_obj a Cancel h))
        else
          (case task of
             None \<Rightarrow> Undefined NullDereference
           | Some a \<Rightarrow>
               if \<not> IsCanceled (obj h a) then Returns (snd (Put task q), h)
               else Returns (q, h)))"

definition StartShutdown :: "('e, 'v) executor \<Rightarrow> ('e, 'v) executor" where
  "StartShutdown s = (case s of (q, h) \<Rightarrow> (Close q, h))"

text \<open>
  \<open>Task::Run\<close> is virtual and written by the user: the worker loop takes the bodies as
  a parameter \<open>Run\<close>, where \<open>Run a h\<close> is the call of the body of the object at \<open>a\<close> in
  heap \<open>h\<close>. It gives the way the call ends and the heap it leaves (the heap matters
  when it returns or throws). A body acts on the tasks only: it may call their public
  methods, but bodies that submit tasks to the executor are not represented.
\<close>

type_synonym ('e, 'v) run = "addr \<Rightarrow> ('e, 'v) heap \<Rightarrow> ('e, unit) outcome \<times> ('e, 'v) heap"

text \<open>What one iteration of the worker loop did with the handle it took.\<close>

datatype 'e event = Exited | Requeued | Discarded | Ran addr "'e option"

text \<open>
  One evaluation of the loop condition and, when a handle was taken, of the loop body
  of \<open>Executor::RunTask\<close>. A null result of \<open>Take\<close> ends the loop. Inside the body
  \<open>task\<close> is not null, so the disjunct \<open>!task\<close> is false and the test is
  \<open>!task->CanBeExecuted()\<close>. The result of \<open>Put\<close> is ignored, as in the source.
\<close>

definition RunTask_iter ::
    "('e, 'v) run \<Rightarrow> time_point \<Rightarrow> ('e, 'v) executor \<Rightarrow> ('e, 'e event \<times> ('e, 'v) executor) outcome" where
  "RunTask_iter Run now s =
     (case s of (q, h) \<Rightarrow>
        and_then (Take q) (\<lambda>(task, q1).
          case task of
            None \<Rightarrow> Returns (Exited, (q1, h))
          | Some a \<Rightarrow>
              and_then (CanBeExecuted now (obj h) a) (\<lambda>ready.
                if \<not> ready then Returns (Requeued, (snd (Put task q1), h))
                else if IsCanceled (obj h a) then Returns (Discarded, (q1, h))
                else
                  (case Run a h of
                     (Returns _, h1) \<Rightarrow> Returns (Ran a None, (q1, update_obj a CompleteTask h1))
                   | (Throws e, h1) \<Rightarrow>
                       Returns (Ran a (Some e), (q1, update_obj a (SaveError (Some e)) h1))
                   | (Undefined u, h1) \<Rightarrow> Undefined u
                   | (Blocks, h1) \<Rightarrow> Blocks))))"

text \<open>
  The loop of \<open>Executor::RunTask\<close> run by one worker, with nothing else running. Each
  iteration reads the clock once: the list holds the readings, and the loop is followed
  for as many iterations as there are readings. The result is the list of the handles
  whose \<open>Run\<close> was called, in order, and the state reached when the worker left the
  loop, blocked, met undefined behaviour or the readings ran out.
\<close>

fun RunTask ::
    "('e, 'v) run \<Rightarrow> time_point list \<Rightarrow> ('e, 'v) executor \<Rightarrow> addr list \<times> ('e, 'v) executor" where
  "RunTask Run [] s = ([], s)"
| "RunTask Run (now # later) s =
     (case RunTask_iter Run now s of
        Returns (Exited, s1) \<Rightarrow> ([], s1)
      | Returns (Requeued, s1) \<Rightarrow> RunTask Run later s1
      | Returns (Discarded, s1) \<Rightarrow> RunTask Run later s1
      | Returns (Ran a x, s1) \<Rightarrow> (case RunTask Run later s1 of (runs, s2) \<Rightarrow> (a # runs, s2))
      | Throws e \<Rightarrow> ([], s)
      | Undefined u \<Rightarrow> ([], s)
      | Blocks \<Rightarrow> ([], s))"




section \<open>Combinators\<close>

text \<open>
  \<open>make_shared<Future<T>>(fn)\<close>: the object at the new address \<open>a\<close> has the default
  members of \<open>Task\<close>; \<open>deadline_\<close> is the clock reading \<open>now\<close> at construction.
\<close>

definition make_shared_Future :: "addr \<Rightarrow> time_point \<Rightarrow> ('e, 'v) heap \<Rightarrow> ('e, 'v) heap" where
  "make_shared_Future a now h =
     h\<lparr>obj := (obj h)(a := \<lparr>e_ptr = None, status = kPending, dependencies = [],
                            triggers = [], deadline = now\<rparr>)\<rparr>"





text \<open>The closure \<open>funk\<close> of \<open>WhenAllBeforeDeadline\<close>; \<open>acc\<close> is \<open>finished_tasks_vector\<close>.\<close>

fun WhenAllBeforeDeadline_loop ::
    "('e, 'v) heap \<Rightarrow> ptr list \<Rightarrow> 'v list \<Rightarrow> ('e, 'v list) outcome" where
  "WhenAllBeforeDeadline_loop h [] acc = Returns acc"
| "WhenAllBeforeDeadline_loop h (task # rest) acc =
     (case task of
        None \<Rightarrow> Undefined NullDereference
      | Some a \<Rightarrow>
          if IsFinished (obj h a) then
            and_then (Get h a) (\<lambda>v. WhenAllBeforeDeadline_loop h rest (acc @ [v]))
          else WhenAllBeforeDeadline_loop h rest acc)"

definition WhenAllBeforeDeadline_funk :: "ptr list \<Rightarrow> ('e, 'v) heap \<Rightarrow> ('e, 'v list) outcome" where
  "WhenAllBeforeDeadline_funk all h = WhenAllBeforeDeadline_loop h all []"

text \<open>
  Modelled from the spec: \<open>Future<T>::Run\<close> is declared in \<open>executors.h\<close> and its
  definition is not among the sources. By the spec a \<open>Future\<close> is a task "whose Run
  wraps a user-supplied thunk producing a T, stores the result", and "errors never
  silently escape Run": \<open>Run\<close> calls \<open>fn_\<close> and assigns what it returns to \<open>value_\<close>; an
  exception of \<open>fn_\<close> leaves \<open>Run\<close>. This is \<open>Run\<close> of a \<open>Future<std::vector<T>>\<close> at
  address \<open>a\<close> whose member \<open>fn_\<close> is the closure \<open>fn\<close>.
\<close>

definition Future_vector_Run ::
    "(('e, 'v) heap \<Rightarrow> ('e, 'v list) outcome) \<Rightarrow> ('e, 'v) run" where
  "Future_vector_Run fn a h =
     (case fn h of
        Returns vs \<Rightarrow> (Returns (), h\<lparr>vector_value := (vector_value h)(a := vs)\<rparr>)
      | Throws e \<Rightarrow> (Throws e, h)
      | Undefined u \<Rightarrow> (Undefined u, h)
      | Blocks \<Rightarrow> (Blocks, h))"

text \<open>
  \<open>WhenAllBeforeDeadline\<close> constructs the future at the new address \<open>a\<close> with its closure
  as \<open>fn_\<close>, sets its time trigger to the deadline \<open>dl\<close> and submits it.
  \<open>WhenAllBeforeDeadline_Run all\<close> is the body \<open>Run\<close> of that future.
\<close>

definition WhenAllBeforeDeadline_Run :: "ptr list \<Rightarrow> ('e, 'v) run" where
  "WhenAllBeforeDeadline_Run all = Future_vector_Run (WhenAllBeforeDeadline_funk all)"

definition WhenAllBeforeDeadline ::
    "ptr list \<Rightarrow> time_point \<Rightarrow> addr \<Rightarrow> time_point \<Rightarrow> ('e, 'v) executor
      \<Rightarrow> ('e, ('e, 'v) executor) outcome" where
  "WhenAllBeforeDeadline all dl a now s =
     (case s of (q, h) \<Rightarrow>
        Submit (Some a) (q, update_obj a (SetTimeTrigger dl) (make_shared_Future a now h)))"

section \<open>Example tasks, bodies and heaps\<close>

text \<open>
  Concrete states on which the theorems below are evaluated. Exceptions and values are
  natural numbers. \<open>pending_task\<close> is a \<open>Task\<close> as constructed at time \<open>0\<close>.
\<close>

definition pending_task :: "nat Task" where
  "pending_task =
     \<lparr>e_ptr = None, status = kPending, dependencies = [], triggers = [], deadline = 0\<rparr>"

definition all_pending :: "(nat, nat) heap" where
  "all_pending =
     \<lparr>obj = (\<lambda>_. pending_task), future_value = (\<lambda>_. 0), vector_value = (\<lambda>_. [])\<rparr>"

text \<open>The same tasks, where the future at address \<open>a\<close> holds the value \<open>10 + a\<close>.\<close>

definition numbered :: "(nat, nat) heap" where
  "numbered =
     \<lparr>obj = (\<lambda>_. pending_task), future_value = (\<lambda>a. 10 + a), vector_value = (\<lambda>_. [])\<rparr>"

text \<open>A body that only returns.\<close>

definition returns_normally :: "(nat, nat) run" where
  "returns_normally a h = (Returns (), h)"

text \<open>A body that calls the public method \<open>Cancel\<close> of its own task and returns.\<close>

definition cancels_itself :: "(nat, nat) run" where
  "cancels_itself a h = (Returns (), update_obj a Cancel h)"

text \<open>A body that asks \<open>IsCompleted\<close> of its own task and throws when it is.\<close>

definition throws_when_completed :: "(nat, nat) run" where
  "throws_when_completed a h =
     (if IsCompleted (obj h a) then (Throws 1, h) else (Returns (), h))"

section \<open>Auxiliary facts\<close>

lemma dependencies_loop_eq:
  "Some self \<notin> set ds \<Longrightarrow>
   dependencies_loop self h ds = Returns (\<forall>a. Some a \<in> set ds \<longrightarrow> IsFinished (h a))"
proof (induction ds)
  case Nil
  show ?case by simp
next
  case (Cons d ds)
  show ?case
  proof (cases d)
    case None
    with Cons show ?thesis by simp
  next
    case (Some y)
    with Cons.prems have "y \<noteq> self" by auto
    with Some Cons show ?thesis by (auto simp: locked_IsFinished_def)
  qed
qed

lemma triggers_loop_eq:
  "Some self \<notin> set ts \<Longrightarrow>
   triggers_loop self h ts = Returns (\<exists>a. Some a \<in> set ts \<and> IsFinished (h a))"
proof (induction ts)
  case Nil
  show ?case by simp
next
  case (Cons d ts)
  show ?case
  proof (cases d)
    case None
    with Cons show ?thesis by simp
  next
    case (Some y)
    with Cons.prems have "y \<noteq> self" by auto
    with Some Cons show ?thesis by (auto simp: locked_IsFinished_def)
  qed
qed

lemma CanBeExecuted_eq:
  "Some self \<notin> set (dependencies (h self)) \<Longrightarrow> Some self \<notin> set (triggers (h self)) \<Longrightarrow>
   CanBeExecuted now h self =
     Returns ((\<forall>a. Some a \<in> set (dependencies (h self)) \<longrightarrow> IsFinished (h a)) \<and>
              deadline (h self) \<le> now \<and>
              (triggers (h self) = [] \<or>
               (\<exists>a. Some a \<in> set (triggers (h self)) \<and> IsFinished (h a))))"
  by (auto simp: CanBeExecuted_def dependencies_loop_eq triggers_loop_eq)

lemma dependencies_loop_stops:
  "(\<forall>a. Some a \<in> set pre \<longrightarrow> a \<noteq> self \<and> IsFinished (h a)) \<Longrightarrow>
   dependencies_loop self h (pre @ Some b # post) =
     (if b = self then Undefined Relock
      else if \<not> IsFinished (h b) then Returns False
      else dependencies_loop self h post)"
  by (induction pre) (auto simp: locked_IsFinished_def)

lemma triggers_loop_stops:
  "(\<forall>a. Some a \<in> set pre \<longrightarrow> a \<noteq> self \<and> \<not> IsFinished (h a)) \<Longrightarrow>
   triggers_loop self h (pre @ Some b # post) =
     (if b = self then Undefined Relock
      else if IsFinished (h b) then Returns True
      else triggers_loop self h post)"
  by (induction pre) (auto simp: locked_IsFinished_def)

lemma dependencies_loop_outcome:
  "(\<exists>b. dependencies_loop self h ds = Returns b) \<or> dependencies_loop self h ds = Undefined Relock"
proof (induction ds)
  case Nil
  show ?case by (intro disjI1 exI) simp
next
  case (Cons d ds)
  then show ?case
    by (cases d) (auto simp: locked_IsFinished_def intro: exI [of _ True] exI [of _ False])
qed

lemma triggers_loop_outcome:
  "(\<exists>b. triggers_loop self h ts = Returns b) \<or> triggers_loop self h ts = Undefined Relock"
proof (induction ts)
  case Nil
  show ?case by (rule disjI1, rule exI [of _ False]) simp
next
  case (Cons d ts)
  then show ?case
    by (cases d) (auto simp: locked_IsFinished_def intro: exI [of _ True] exI [of _ False])
qed

lemma CanBeExecuted_outcome:
  "(\<exists>b. CanBeExecuted now h self = Returns b) \<or> CanBeExecuted now h self = Undefined Relock"
  using dependencies_loop_outcome [of self h "dependencies (h self)"]
    triggers_loop_outcome [of self h "triggers (h self)"]
  by (auto simp: CanBeExecuted_def)

lemma Get_finished:
  "IsFinished (obj h a) \<Longrightarrow>
   Get h a = (if IsFailed (obj h a) then rethrow_exception (e_ptr (obj h a))
              else Returns (future_value h a))"
  by (simp add: Get_def Wait_def IsFinished_def GetError_def)



lemma RunTask_iter_count:
  assumes "RunTask_iter Run now (q, h) = Returns (ev, (q', h'))"
  shows "count_list (buffer q') p + (case ev of Ran a x \<Rightarrow> if p = Some a then 1 else 0 | _ \<Rightarrow> 0)
           \<le> count_list (buffer q) p"
proof (cases "buffer q")
  case Nil
  with assms show ?thesis
    by (auto simp: RunTask_iter_def Take_def split: if_splits)
next
  case (Cons front rest)
  show ?thesis
  proof (cases front)
    case None
    with Cons assms show ?thesis
      by (auto simp: RunTask_iter_def Take_def)
  next
    case (Some a)
    show ?thesis
    proof (cases "CanBeExecuted now (obj h) a :: ('a, bool) outcome")
      case (Returns ready)
      with Some Cons assms show ?thesis
        by (auto simp: RunTask_iter_def Take_def Put_def
            split: if_splits prod.splits outcome.splits)
    qed (use Some Cons assms in \<open>simp_all add: RunTask_iter_def Take_def\<close>)
  qed
qed

lemma RunTask_count:
  "count_list (fst (RunTask Run clock (q, h))) a \<le> count_list (buffer q) (Some a)"
proof (induction clock arbitrary: q h)
  case Nil
  show ?case by simp
next
  case (Cons now later)
  show ?case
  proof (cases "RunTask_iter Run now (q, h)")
    case (Returns r)
    obtain ev q' h' where r: "r = (ev, (q', h'))" by (metis surj_pair)
    note step = RunTask_iter_count [OF Returns [unfolded r], of "Some a"]
    note ih = Cons.IH [of q' h']
    show ?thesis
    proof (cases ev)
      case (Ran b x)
      obtain runs s2 where rec: "RunTask Run later (q', h') = (runs, s2)" by (metis surj_pair)
      with ih have "count_list runs a \<le> count_list (buffer q') (Some a)" by simp
      with step Ran Returns r rec show ?thesis by (auto split: if_splits)
    qed (use step ih Returns r in auto)
  qed simp_all
qed

section \<open>Future::Get\<close>

text \<open>
  C1, as the code has it. On a finished \<open>Future\<close>, \<open>Get\<close> returns the member \<open>value_\<close>
  when the status is Completed, leaves with the stored exception when the status is
  Failed, and returns the member \<open>value_\<close> when the status is Canceled: no error is
  signalled for a canceled future. While the status is Pending, \<open>Get\<close> blocks.
\<close>

theorem Get_terminal:
  "(status (obj h a) = kCompleted \<longrightarrow> Get h a = Returns (future_value h a)) \<and>
   (status (obj h a) = kFailed \<and> e_ptr (obj h a) = Some e \<longrightarrow> Get h a = Throws e) \<and>
   (status (obj h a) = kCanceled \<longrightarrow> Get h a = Returns (future_value h a)) \<and>
   (status (obj h a) = kPending \<longrightarrow> Get h a = Blocks)"
  by (simp add: Get_def Wait_def IsFailed_def GetError_def rethrow_exception_def)

theorem Get_terminal_witness:
  "Get (update_obj 0 CompleteTask all_pending) 0 = Returns 0 \<and>
   Get (update_obj 0 (SaveError (Some 7)) all_pending) 0 = Throws 7 \<and>
   Get (update_obj 0 Cancel all_pending) 0 = Returns 0 \<and>
   Get all_pending 0 = Blocks"
  using Get_terminal [of "update_obj 0 CompleteTask all_pending" 0]
    Get_terminal [of "update_obj 0 (SaveError (Some 7)) all_pending" 0 7]
    Get_terminal [of "update_obj 0 Cancel all_pending" 0]
    Get_terminal [of all_pending 0]
  by (simp add: update_obj_def CompleteTask_def SaveError_def Cancel_def
      all_pending_def pending_task_def)

text \<open>
  The future at address \<open>0\<close> was canceled while pending; \<open>Get\<close> returns what its
  member \<open>value_\<close> holds.
\<close>

theorem Get_of_canceled_returns:
  "status (obj (update_obj 0 Cancel all_pending) 0) = kCanceled \<and>
   Get (update_obj 0 Cancel all_pending) 0 = Returns 0"
  by (simp add: Get_def Wait_def IsFailed_def update_obj_def Cancel_def
      all_pending_def pending_task_def)

section \<open>Status transitions\<close>

text \<open>
  C2. \<open>Cancel\<close> changes the status only when it is Pending, but \<open>CompleteTask\<close> and
  \<open>SaveError\<close> assign the status whatever it was. On a canceled task \<open>CompleteTask\<close>
  gives Completed and \<open>SaveError\<close> gives Failed. The worker reaches this: for a task
  whose body cancels the task (as a call of \<open>Cancel\<close> from another thread during \<open>Run\<close>
  would), the status is Canceled when \<open>Run\<close> returns and Completed after the iteration;
  for a task submitted twice whose body throws on its second call, the status is
  Completed after one iteration and Failed after two.
\<close>

theorem terminal_status_overwritten:
  "status (Cancel pending_task) = kCanceled \<and>
   status (CompleteTask (Cancel pending_task)) = kCompleted \<and>
   status (SaveError (Some 7) (Cancel pending_task)) = kFailed \<and>
   status (obj (snd (cancels_itself 0 all_pending)) 0) = kCanceled \<and>
   status (obj (snd (snd (RunTask cancels_itself [0]
     (\<lparr>stopped = False, buffer = [Some 0]\<rparr>, all_pending)))) 0) = kCompleted \<and>
   status (obj (snd (snd (RunTask throws_when_completed [0]
     (\<lparr>stopped = False, buffer = [Some 0, Some 0]\<rparr>, all_pending)))) 0) = kCompleted \<and>
   status (obj (snd (snd (RunTask throws_when_completed [0, 0]
     (\<lparr>stopped = False, buffer = [Some 0, Some 0]\<rparr>, all_pending)))) 0) = kFailed"
  by (simp add: RunTask_iter_def Take_def CanBeExecuted_eq IsCanceled_def IsCompleted_def
      update_obj_def Cancel_def CompleteTask_def SaveError_def cancels_itself_def
      throws_when_completed_def all_pending_def pending_task_def)

section \<open>WhenAllBeforeDeadline\<close>

lemma WhenAllBeforeDeadline_loop_values:
  "(\<forall>a\<in>set elems. \<not> IsFailed (obj h a)) \<Longrightarrow>
   WhenAllBeforeDeadline_loop h (map Some elems) acc =
     Returns (acc @ map (future_value h) (filter (\<lambda>a. IsFinished (obj h a)) elems))"
  by (induction elems arbitrary: acc) (simp_all add: Get_finished)

lemma WhenAllBeforeDeadline_loop_throws:
  "(\<forall>a\<in>set pre. \<not> IsFailed (obj h a)) \<Longrightarrow> IsFailed (obj h b) \<Longrightarrow>
   e_ptr (obj h b) = Some e \<Longrightarrow>
   WhenAllBeforeDeadline_loop h (map Some pre @ Some b # post) acc = Throws e"
  by (induction pre arbitrary: acc)
     (simp_all add: Get_finished IsFinished_def IsFailed_def rethrow_exception_def)

text \<open>
  C3, as the code has it. When no element is Failed, the closure of
  \<open>WhenAllBeforeDeadline\<close> returns the members \<open>value_\<close> of the elements that are
  finished when it runs, in the order of the vector, and leaves the unfinished ones out
  (a canceled element contributes its member \<open>value_\<close>); the worker that runs the
  future stores this vector and the future becomes Completed. When an element is
  Failed, the closure leaves with the stored exception of the first such element:
  \<open>Get\<close> rethrows it and nothing in the closure catches it; the exception leaves \<open>Run\<close>,
  the worker stores it with \<open>SaveError\<close>, and the future becomes Failed with the
  exception of that element.
\<close>

theorem WhenAllBeforeDeadline_result:
  "((\<forall>a\<in>set elems. \<not> IsFailed (obj h a)) \<longrightarrow>
      WhenAllBeforeDeadline_funk (map Some elems) h =
        Returns (map (future_value h) (filter (\<lambda>a. IsFinished (obj h a)) elems))) \<and>
   ((\<forall>a\<in>set pre. \<not> IsFailed (obj h a)) \<and> IsFailed (obj h b) \<and> e_ptr (obj h b) = Some e \<longrightarrow>
      WhenAllBeforeDeadline_funk (map Some pre @ Some b # post) h = Throws e) \<and>
   (buffer q = Some agg # rest \<and> CanBeExecuted now (obj h) agg = Returns True \<and>
    \<not> IsCanceled (obj h agg) \<and> Run agg = WhenAllBeforeDeadline_Run (map Some elems) agg \<and>
    (\<forall>a\<in>set elems. \<not> IsFailed (obj h a)) \<longrightarrow>
      RunTask_iter Run now (q, h) =
        Returns (Ran agg None, (q\<lparr>buffer := rest\<rparr>,
          update_obj agg CompleteTask
            (h\<lparr>vector_value := (vector_value h)
                (agg := map (future_value h) (filter (\<lambda>a. IsFinished (obj h a)) elems))\<rparr>)))) \<and>
   (buffer q = Some agg # rest \<and> CanBeExecuted now (obj h) agg = Returns True \<and>
    \<not> IsCanceled (obj h agg) \<and>
    Run agg = WhenAllBeforeDeadline_Run (map Some pre @ Some b # post) agg \<and>
    (\<forall>a\<in>set pre. \<not> IsFailed (obj h a)) \<and> IsFailed (obj h b) \<and> e_ptr (obj h b) = Some e \<longrightarrow>
      RunTask_iter Run now (q, h) =
        Returns (Ran agg (Some e), (q\<lparr>buffer := rest\<rparr>, update_obj agg (SaveError (Some e)) h)) \<and>
      status (obj (update_obj agg (SaveError (Some e)) h) agg) = kFailed \<and>
      e_ptr (obj (update_obj agg (SaveError (Some e)) h) agg) = Some e)"
proof -
  have returned: "(\<forall>a\<in>set elems. \<not> IsFailed (obj h a)) \<longrightarrow>
      WhenAllBeforeDeadline_funk (map Some elems) h =
        Returns (map (future_value h) (filter (\<lambda>a. IsFinished (obj h a)) elems))"
    by (simp add: WhenAllBeforeDeadline_funk_def WhenAllBeforeDeadline_loop_values)
  have thrown: "(\<forall>a\<in>set pre. \<not> IsFailed (obj h a)) \<and> IsFailed (obj h b) \<and>
      e_ptr (obj h b) = Some e \<longrightarrow>
      WhenAllBeforeDeadline_funk (map Some pre @ Some b # post) h = Throws e"
    by (simp add: WhenAllBeforeDeadline_funk_def WhenAllBeforeDeadline_loop_throws)
  have completed: "buffer q = Some agg # rest \<and> CanBeExecuted now (obj h) agg = Returns True \<and>
    \<not> IsCanceled (obj h agg) \<and> Run agg = WhenAllBeforeDeadline_Run (map Some elems) agg \<and>
    (\<forall>a\<in>set elems. \<not> IsFailed (obj h a)) \<longrightarrow>
      RunTask_iter Run now (q, h) =
        Returns (Ran agg None, (q\<lparr>buffer := rest\<rparr>,
          update_obj agg CompleteTask
            (h\<lparr>vector_value := (vector_value h)
                (agg := map (future_value h) (filter (\<lambda>a. IsFinished (obj h a)) elems))\<rparr>)))"
    using returned
    by (auto simp: RunTask_iter_def Take_def WhenAllBeforeDeadline_Run_def Future_vector_Run_def)
  have failed: "buffer q = Some agg # rest \<and> CanBeExecuted now (obj h) agg = Returns True \<and>
    \<not> IsCanceled (obj h agg) \<and>
    Run agg = WhenAllBeforeDeadline_Run (map Some pre @ Some b # post) agg \<and>
    (\<forall>a\<in>set pre. \<not> IsFailed (obj h a)) \<and> IsFailed (obj h b) \<and> e_ptr (obj h b) = Some e \<longrightarrow>
      RunTask_iter Run now (q, h) =
        Returns (Ran agg (Some e), (q\<lparr>buffer := rest\<rparr>, update_obj agg (SaveError (Some e)) h)) \<and>
      status (obj (update_obj agg (SaveError (Some e)) h) agg) = kFailed \<and>
      e_ptr (obj (update_obj agg (SaveError (Some e)) h) agg) = Some e"
    using thrown
    by (auto simp: RunTask_iter_def Take_def WhenAllBeforeDeadline_Run_def Future_vector_Run_def
        update_obj_def SaveError_def)
  from returned thrown completed failed show ?thesis by (intro conjI)
qed

text \<open>
  Futures \<open>0\<close>, \<open>1\<close>, \<open>2\<close> hold the values \<open>10\<close>, \<open>11\<close>, \<open>12\<close>. With \<open>0\<close> Completed, \<open>1\<close>
  Pending and \<open>2\<close> Canceled the closure returns \<open>[10, 12]\<close>, and the worker that runs
  the future at address \<open>5\<close> stores this vector and completes it. With \<open>2\<close> Failed
  instead, the closure throws and the worker fails the future at address \<open>5\<close>.
\<close>

theorem WhenAllBeforeDeadline_result_witness:
  "WhenAllBeforeDeadline_funk (map Some [0, 1, 2])
     (update_obj 2 Cancel (update_obj 0 CompleteTask numbered)) = Returns [10, 12] \<and>
   WhenAllBeforeDeadline_funk (map Some [0, 1] @ Some 2 # [Some 3])
     (update_obj 2 (SaveError (Some 7)) (update_obj 0 CompleteTask numbered)) = Throws 7 \<and>
   RunTask_iter (WhenAllBeforeDeadline_Run (map Some [0, 1, 2])) 0
     (\<lparr>stopped = False, buffer = [Some 5]\<rparr>,
      update_obj 2 Cancel (update_obj 0 CompleteTask numbered)) =
     Returns (Ran 5 None, (\<lparr>stopped = False, buffer = []\<rparr>,
       update_obj 5 CompleteTask
         ((update_obj 2 Cancel (update_obj 0 CompleteTask numbered))
            \<lparr>vector_value := (\<lambda>_. [])(5 := [10, 12])\<rparr>))) \<and>
   RunTask_iter (WhenAllBeforeDeadline_Run (map Some [0, 1] @ Some 2 # [Some 3])) 0
     (\<lparr>stopped = False, buffer = [Some 5]\<rparr>,
      update_obj 2 (SaveError (Some 7)) (update_obj 0 CompleteTask numbered)) =
     Returns (Ran 5 (Some 7), (\<lparr>stopped = False, buffer = []\<rparr>,
       update_obj 5 (SaveError (Some 7))
         (update_obj 2 (SaveError (Some 7)) (update_obj 0 CompleteTask numbered))))"
proof -
  let ?ok = "update_obj 2 Cancel (update_obj 0 CompleteTask numbered)"
  let ?bad = "update_obj 2 (SaveError (Some 7)) (update_obj 0 CompleteTask numbered)"
  let ?q = "\<lparr>stopped = False, buffer = [Some (5::nat)]\<rparr>"
  note ok = WhenAllBeforeDeadline_result [where elems = "[0, 1, 2]" and h = ?ok and q = ?q
      and agg = 5 and rest = "[]" and now = 0
      and Run = "WhenAllBeforeDeadline_Run (map Some [0, 1, 2])"]
  note bad = WhenAllBeforeDeadline_result [where pre = "[0, 1]" and b = 2 and e = 7
      and post = "[Some 3]" and h = ?bad and q = ?q and agg = 5 and rest = "[]" and now = 0
      and Run = "WhenAllBeforeDeadline_Run (map Some [0, 1] @ Some 2 # [Some 3])"]
  have nf: "\<forall>a\<in>set [0, 1, 2]. \<not> IsFailed (obj ?ok a)"
    by (simp add: IsFailed_def update_obj_def CompleteTask_def Cancel_def
        numbered_def pending_task_def)
  have fin: "filter (\<lambda>a. IsFinished (obj ?ok a)) [0, 1, 2] = [0, 2]"
    by (simp add: IsFinished_def update_obj_def CompleteTask_def Cancel_def
        numbered_def pending_task_def)
  have vals: "map (future_value ?ok) [0, 2] = [10, 12]"
    by (simp add: update_obj_def numbered_def)
  have vv: "vector_value ?ok = (\<lambda>_. [])"
    by (simp add: update_obj_def numbered_def)
  have ready_ok: "CanBeExecuted 0 (obj ?ok) 5 = Returns True"
    by (simp add: CanBeExecuted_eq update_obj_def numbered_def pending_task_def)
  have nc_ok: "\<not> IsCanceled (obj ?ok 5)"
    by (simp add: IsCanceled_def update_obj_def numbered_def pending_task_def)
  have pre_nf: "\<forall>a\<in>set [0, 1]. \<not> IsFailed (obj ?bad a)"
    by (simp add: IsFailed_def update_obj_def CompleteTask_def SaveError_def
        numbered_def pending_task_def)
  have b_failed: "IsFailed (obj ?bad 2) \<and> e_ptr (obj ?bad 2) = Some 7"
    by (simp add: IsFailed_def update_obj_def SaveError_def)
  have ready_bad: "CanBeExecuted 0 (obj ?bad) 5 = Returns True"
    by (simp add: CanBeExecuted_eq update_obj_def numbered_def pending_task_def)
  have nc_bad: "\<not> IsCanceled (obj ?bad 5)"
    by (simp add: IsCanceled_def update_obj_def numbered_def pending_task_def)
  have "WhenAllBeforeDeadline_funk (map Some [0, 1, 2]) ?ok = Returns [10, 12]"
    using ok nf fin vals by simp
  moreover have "WhenAllBeforeDeadline_funk (map Some [0, 1] @ Some 2 # [Some 3]) ?bad = Throws 7"
    using bad pre_nf b_failed by blast
  moreover have "RunTask_iter (WhenAllBeforeDeadline_Run (map Some [0, 1, 2])) 0 (?q, ?ok) =
     Returns (Ran 5 None, (\<lparr>stopped = False, buffer = []\<rparr>,
       update_obj 5 CompleteTask (?ok\<lparr>vector_value := (\<lambda>_. [])(5 := [10, 12])\<rparr>)))"
    using ok nf ready_ok nc_ok fin vals vv by simp
  moreover have "RunTask_iter (WhenAllBeforeDeadline_Run (map Some [0, 1] @ Some 2 # [Some 3])) 0
      (?q, ?bad) =
     Returns (Ran 5 (Some 7), (\<lparr>stopped = False, buffer = []\<rparr>, update_obj 5 (SaveError (Some 7)) ?bad))"
    using bad pre_nf b_failed ready_bad nc_bad by simp
  ultimately show ?thesis by simp
qed

text \<open>
  Future \<open>0\<close> is Completed and future \<open>1\<close> is Failed with exception \<open>7\<close>.
  \<open>WhenAllBeforeDeadline\<close> of the two, with deadline \<open>5\<close>, constructs the future at
  address \<open>2\<close> and enqueues it. At time \<open>5\<close> the worker runs it: the closure does not
  return the vector of the finished values, it leaves with exception \<open>7\<close>, and the
  future at address \<open>2\<close> becomes Failed with exception \<open>7\<close>.
\<close>

theorem failed_element_fails_aggregate:
  "WhenAllBeforeDeadline [Some 0, Some 1] 5 2 0
     (\<lparr>stopped = False, buffer = []\<rparr>,
      update_obj 1 (SaveError (Some 7)) (update_obj 0 CompleteTask numbered)) =
     Returns (\<lparr>stopped = False, buffer = [Some 2]\<rparr>,
       update_obj 2 (SetTimeTrigger 5) (make_shared_Future 2 0
         (update_obj 1 (SaveError (Some 7)) (update_obj 0 CompleteTask numbered)))) \<and>
   IsFailed (obj (update_obj 1 (SaveError (Some 7)) (update_obj 0 CompleteTask numbered)) 1) \<and>
   WhenAllBeforeDeadline_funk [Some 0, Some 1]
     (update_obj 2 (SetTimeTrigger 5) (make_shared_Future 2 0
        (update_obj 1 (SaveError (Some 7)) (update_obj 0 CompleteTask numbered)))) = Throws 7 \<and>
   status (obj (snd (snd (RunTask (WhenAllBeforeDeadline_Run [Some 0, Some 1]) [5]
     (\<lparr>stopped = False, buffer = [Some 2]\<rparr>,
      update_obj 2 (SetTimeTrigger 5) (make_shared_Future 2 0
        (update_obj 1 (SaveError (Some 7)) (update_obj 0 CompleteTask numbered))))))) 2) = kFailed \<and>
   e_ptr (obj (snd (snd (RunTask (WhenAllBeforeDeadline_Run [Some 0, Some 1]) [5]
     (\<lparr>stopped = False, buffer = [Some 2]\<rparr>,
      update_obj 2 (SetTimeTrigger 5) (make_shared_Future 2 0
        (update_obj 1 (SaveError (Some 7)) (update_obj 0 CompleteTask numbered))))))) 2) = Some 7"
  by (simp add: WhenAllBeforeDeadline_def Submit_def IsClosed_def IsCanceled_def Put_def
      RunTask_iter_def Take_def CanBeExecuted_eq WhenAllBeforeDeadline_Run_def
      Future_vector_Run_def WhenAllBeforeDeadline_funk_def Get_def Wait_def IsFinished_def
      IsFailed_def GetError_def rethrow_exception_def update_obj_def SaveError_def
      CompleteTask_def SetTimeTrigger_def make_shared_Future_def numbered_def pending_task_def)

section \<open>WhenAll\<close>






section \<open>The worker loop\<close>

text \<open>
  C5, as the code has it. For a handle taken from the front of the queue the worker
  tests \<open>CanBeExecuted\<close> first. A task that cannot be executed is put back whether or
  not it is canceled: at the tail when the queue is open, and dropped by \<open>Put\<close> when the
  queue has been closed. A task that can be executed and is canceled is discarded: it
  is neither run nor put back. A task that can be executed and is not canceled is run,
  and becomes Completed when \<open>Run\<close> returns and Failed with the exception when \<open>Run\<close>
  throws.
\<close>

theorem RunTask_iter_handle:
  assumes "buffer q = Some a # rest"
  shows
  "(CanBeExecuted now (obj h) a = Returns False \<longrightarrow>
      RunTask_iter Run now (q, h) =
        Returns (Requeued,
          (if stopped q then q\<lparr>buffer := rest\<rparr> else q\<lparr>buffer := rest @ [Some a]\<rparr>, h))) \<and>
   (CanBeExecuted now (obj h) a = Returns True \<and> IsCanceled (obj h a) \<longrightarrow>
      RunTask_iter Run now (q, h) = Returns (Discarded, (q\<lparr>buffer := rest\<rparr>, h))) \<and>
   (CanBeExecuted now (obj h) a = Returns True \<and> \<not> IsCanceled (obj h a) \<and>
    Run a h = (Returns (), h1) \<longrightarrow>
      RunTask_iter Run now (q, h) =
        Returns (Ran a None, (q\<lparr>buffer := rest\<rparr>, update_obj a CompleteTask h1))) \<and>
   (CanBeExecuted now (obj h) a = Returns True \<and> \<not> IsCanceled (obj h a) \<and>
    Run a h = (Throws e, h1) \<longrightarrow>
      RunTask_iter Run now (q, h) =
        Returns (Ran a (Some e), (q\<lparr>buffer := rest\<rparr>, update_obj a (SaveError (Some e)) h1)))"
  using assms by (auto simp: RunTask_iter_def Take_def Put_def)

theorem RunTask_iter_handle_witness:
  "RunTask_iter returns_normally 0
     (\<lparr>stopped = False, buffer = [Some 0, Some 1]\<rparr>,
      update_obj 0 (\<lambda>t. t\<lparr>status := kCanceled\<rparr>) all_pending) =
   Returns (Discarded,
     (\<lparr>stopped = False, buffer = [Some 1]\<rparr>,
      update_obj 0 (\<lambda>t. t\<lparr>status := kCanceled\<rparr>) all_pending)) \<and>
   RunTask_iter returns_normally 0
     (\<lparr>stopped = False, buffer = [Some 0, Some 1]\<rparr>,
      update_obj 0 (\<lambda>t. t\<lparr>dependencies := [Some 1]\<rparr>) all_pending) =
   Returns (Requeued,
     (\<lparr>stopped = False, buffer = [Some 1, Some 0]\<rparr>,
      update_obj 0 (\<lambda>t. t\<lparr>dependencies := [Some 1]\<rparr>) all_pending)) \<and>
   RunTask_iter returns_normally 0 (\<lparr>stopped = False, buffer = [Some 0, Some 1]\<rparr>, all_pending) =
   Returns (Ran 0 None,
     (\<lparr>stopped = False, buffer = [Some 1]\<rparr>, update_obj 0 CompleteTask all_pending))"
  using
    RunTask_iter_handle [of "\<lparr>stopped = False, buffer = [Some 0, Some 1]\<rparr>" 0 "[Some 1]" 0
      "update_obj 0 (\<lambda>t. t\<lparr>status := kCanceled\<rparr>) all_pending" returns_normally]
    RunTask_iter_handle [of "\<lparr>stopped = False, buffer = [Some 0, Some 1]\<rparr>" 0 "[Some 1]" 0
      "update_obj 0 (\<lambda>t. t\<lparr>dependencies := [Some 1]\<rparr>) all_pending" returns_normally]
    RunTask_iter_handle [of "\<lparr>stopped = False, buffer = [Some 0, Some 1]\<rparr>" 0 "[Some 1]" 0
      all_pending returns_normally all_pending]
  by (simp add: CanBeExecuted_eq IsCanceled_def IsFinished_def
      update_obj_def all_pending_def pending_task_def returns_normally_def)

text \<open>
  Task \<open>0\<close> is canceled and depends on the pending task \<open>1\<close>: the worker does not
  discard it, it puts the handle back into the queue.
\<close>

theorem canceled_unready_requeued:
  "IsCanceled (obj (update_obj 0 (\<lambda>t. t\<lparr>status := kCanceled, dependencies := [Some 1]\<rparr>) all_pending) 0) \<and>
   RunTask_iter returns_normally 0
     (\<lparr>stopped = False, buffer = [Some 0]\<rparr>,
      update_obj 0 (\<lambda>t. t\<lparr>status := kCanceled, dependencies := [Some 1]\<rparr>) all_pending) =
   Returns (Requeued,
     (\<lparr>stopped = False, buffer = [Some 0]\<rparr>,
      update_obj 0 (\<lambda>t. t\<lparr>status := kCanceled, dependencies := [Some 1]\<rparr>) all_pending))"
  by (simp add: RunTask_iter_def Take_def Put_def CanBeExecuted_eq IsCanceled_def IsFinished_def
      update_obj_def all_pending_def pending_task_def)

section \<open>Submit\<close>

lemma RunTask_once_Ran:
  "a \<in> set (fst (RunTask Run [now] s)) \<Longrightarrow> \<exists>x s'. RunTask_iter Run now s = Returns (Ran a x, s')"
  by (auto split: outcome.splits prod.splits event.splits)

lemma RunTask_iter_Ran_not_canceled:
  fixes h :: "('e, 'v) heap"
  assumes "RunTask_iter Run now (q, h) = Returns (Ran a x, s')"
  shows "\<not> IsCanceled (obj h a)"
proof (cases "buffer q")
  case Nil
  with assms show ?thesis
    by (auto simp: RunTask_iter_def Take_def split: if_splits)
next
  case (Cons front rest)
  show ?thesis
  proof (cases front)
    case None
    with Cons assms show ?thesis
      by (auto simp: RunTask_iter_def Take_def)
  next
    case (Some b)
    show ?thesis
    proof (cases "CanBeExecuted now (obj h) b :: ('e, bool) outcome")
      case (Returns ready)
      with Some Cons assms show ?thesis
        by (auto simp: RunTask_iter_def Take_def split: if_splits prod.splits outcome.splits)
    qed (use Some Cons assms in \<open>simp_all add: RunTask_iter_def Take_def\<close>)
  qed
qed

text \<open>
  C6. \<open>Submit\<close> of a task on a closed queue cancels the task (Pending becomes Canceled,
  any other status stays) and leaves the queue as it was: the task is not enqueued, and
  when its handle is not in the queue, no worker loop that starts from the state
  \<open>Submit\<close> returns ever calls its \<open>Run\<close>, whatever the bodies of the tasks and the clock
  readings. On an open queue a canceled task changes nothing, and any other task is
  appended to the buffer. A task that is canceled when its handle is taken is not run.
\<close>

theorem Submit_cases:
  "(IsClosed q \<longrightarrow>
      Submit (Some a) (q, h) = Returns (q, update_obj a Cancel h) \<and>
      (status (obj h a) = kPending \<longrightarrow> status (obj (update_obj a Cancel h) a) = kCanceled) \<and>
      (status (obj h a) \<noteq> kPending \<longrightarrow> update_obj a Cancel h = h) \<and>
      (Some a \<notin> set (buffer q) \<longrightarrow>
         a \<notin> set (fst (RunTask Run clock (q, update_obj a Cancel h))))) \<and>
   (\<not> IsClosed q \<and> IsCanceled (obj h a) \<longrightarrow> Submit (Some a) (q, h) = Returns (q, h)) \<and>
   (\<not> IsClosed q \<and> \<not> IsCanceled (obj h a) \<longrightarrow>
      Submit (Some a) (q, h) = Returns (q\<lparr>buffer := buffer q @ [Some a]\<rparr>, h)) \<and>
   (IsCanceled (obj h a) \<longrightarrow> a \<notin> set (fst (RunTask Run [now] (q, h))))"
proof -
  have closed: "IsClosed q \<longrightarrow>
      Submit (Some a) (q, h) = Returns (q, update_obj a Cancel h) \<and>
      (status (obj h a) = kPending \<longrightarrow> status (obj (update_obj a Cancel h) a) = kCanceled) \<and>
      (status (obj h a) \<noteq> kPending \<longrightarrow> update_obj a Cancel h = h)"
    by (simp add: Submit_def update_obj_def Cancel_def)
  have never: "Some a \<notin> set (buffer q) \<longrightarrow>
      a \<notin> set (fst (RunTask Run clock (q, update_obj a Cancel h)))"
  proof
    assume "Some a \<notin> set (buffer q)"
    then have "count_list (buffer q) (Some a) = 0"
      by (simp add: count_list_0_iff)
    with RunTask_count [of Run clock q "update_obj a Cancel h" a]
    have "count_list (fst (RunTask Run clock (q, update_obj a Cancel h))) a = 0"
      by simp
    then show "a \<notin> set (fst (RunTask Run clock (q, update_obj a Cancel h)))"
      by (simp add: count_list_0_iff)
  qed
  have canceled: "\<not> IsClosed q \<and> IsCanceled (obj h a) \<longrightarrow> Submit (Some a) (q, h) = Returns (q, h)"
    by (simp add: Submit_def)
  have enqueued: "\<not> IsClosed q \<and> \<not> IsCanceled (obj h a) \<longrightarrow>
      Submit (Some a) (q, h) = Returns (q\<lparr>buffer := buffer q @ [Some a]\<rparr>, h)"
    by (simp add: Submit_def Put_def IsClosed_def)
  have taken: "IsCanceled (obj h a) \<longrightarrow> a \<notin> set (fst (RunTask Run [now] (q, h)))"
    using RunTask_once_Ran [of a Run now "(q, h)"] RunTask_iter_Ran_not_canceled [of Run now q h a]
    by blast
  from closed never canceled enqueued taken show ?thesis by blast
qed

theorem Submit_cases_witness:
  "Submit (Some 0) (\<lparr>stopped = True, buffer = [Some 1]\<rparr>, all_pending) =
     Returns (\<lparr>stopped = True, buffer = [Some 1]\<rparr>, update_obj 0 Cancel all_pending) \<and>
   status (obj (update_obj 0 Cancel all_pending) 0) = kCanceled \<and>
   0 \<notin> set (fst (RunTask returns_normally [0, 0, 0]
     (\<lparr>stopped = True, buffer = [Some 1]\<rparr>, update_obj 0 Cancel all_pending))) \<and>
   Submit (Some 0) (\<lparr>stopped = False, buffer = [Some 1]\<rparr>, update_obj 0 Cancel all_pending) =
     Returns (\<lparr>stopped = False, buffer = [Some 1]\<rparr>, update_obj 0 Cancel all_pending) \<and>
   Submit (Some 0) (\<lparr>stopped = False, buffer = [Some 1]\<rparr>, all_pending) =
     Returns (\<lparr>stopped = False, buffer = [Some 1, Some 0]\<rparr>, all_pending) \<and>
   0 \<notin> set (fst (RunTask returns_normally [0]
     (\<lparr>stopped = False, buffer = [Some 0]\<rparr>, update_obj 0 Cancel all_pending)))"
proof -
  have p: "status (obj all_pending 0) = kPending"
    by (simp add: all_pending_def pending_task_def)
  have c: "IsCanceled (obj (update_obj 0 Cancel all_pending) 0)"
    by (simp add: IsCanceled_def update_obj_def Cancel_def all_pending_def pending_task_def)
  have n: "\<not> IsCanceled (obj all_pending 0)"
    by (simp add: IsCanceled_def all_pending_def pending_task_def)
  note closed = Submit_cases [where q = "\<lparr>stopped = True, buffer = [Some 1]\<rparr>" and a = 0
      and h = all_pending and Run = returns_normally and clock = "[0, 0, 0]"]
  note canceled = Submit_cases [where q = "\<lparr>stopped = False, buffer = [Some 1]\<rparr>" and a = 0
      and h = "update_obj 0 Cancel all_pending" and Run = returns_normally and now = 0]
  note fresh = Submit_cases [where q = "\<lparr>stopped = False, buffer = [Some 1]\<rparr>" and a = 0
      and h = all_pending]
  note worker = Submit_cases [where q = "\<lparr>stopped = False, buffer = [Some 0]\<rparr>" and a = 0
      and h = "update_obj 0 Cancel all_pending" and Run = returns_normally and now = 0]
  have "Submit (Some 0) (\<lparr>stopped = True, buffer = [Some 1]\<rparr>, all_pending) =
     Returns (\<lparr>stopped = True, buffer = [Some 1]\<rparr>, update_obj 0 Cancel all_pending)"
    using closed by (simp add: IsClosed_def)
  moreover have "status (obj (update_obj 0 Cancel all_pending) 0) = kCanceled"
    using closed p by (simp add: IsClosed_def)
  moreover have "0 \<notin> set (fst (RunTask returns_normally [0, 0, 0]
     (\<lparr>stopped = True, buffer = [Some 1]\<rparr>, update_obj 0 Cancel all_pending)))"
    using closed by (simp add: IsClosed_def)
  moreover have "Submit (Some 0)
      (\<lparr>stopped = False, buffer = [Some 1]\<rparr>, update_obj 0 Cancel all_pending) =
     Returns (\<lparr>stopped = False, buffer = [Some 1]\<rparr>, update_obj 0 Cancel all_pending)"
    using canceled c by (simp add: IsClosed_def)
  moreover have "Submit (Some 0) (\<lparr>stopped = False, buffer = [Some 1]\<rparr>, all_pending) =
     Returns (\<lparr>stopped = False, buffer = [Some 1, Some 0]\<rparr>, all_pending)"
    using fresh n by (simp add: IsClosed_def)
  moreover have "0 \<notin> set (fst (RunTask returns_normally [0]
     (\<lparr>stopped = False, buffer = [Some 0]\<rparr>, update_obj 0 Cancel all_pending)))"
    using worker c by blast
  ultimately show ?thesis by simp
qed

section \<open>Readiness\<close>

text \<open>
  C7, as the code has it. For a task that does not hold itself among its dependencies
  and triggers, \<open>CanBeExecuted\<close> returns true exactly when every dependency is finished,
  the clock has reached the time trigger, and the trigger set is empty or holds a
  finished trigger (null entries are passed over). The tests are made in this order
  and the first that decides ends the call: after an unfinished dependency nothing
  else is read, before the time trigger no trigger is read, and after a finished
  trigger no further trigger is read, so what is not read may be the task itself. When
  the evaluation reaches an entry that is the task itself, the call locks the mutex it
  already holds and does not return a value.
\<close>

theorem CanBeExecuted_order:
  "(Some self \<notin> set (dependencies (h self)) \<and> Some self \<notin> set (triggers (h self)) \<longrightarrow>
      CanBeExecuted now h self =
        Returns ((\<forall>a. Some a \<in> set (dependencies (h self)) \<longrightarrow> IsFinished (h a)) \<and>
                 deadline (h self) \<le> now \<and>
                 (triggers (h self) = [] \<or>
                  (\<exists>a. Some a \<in> set (triggers (h self)) \<and> IsFinished (h a))))) \<and>
   (dependencies (h self) = pre @ Some b # post \<and>
    (\<forall>a. Some a \<in> set pre \<longrightarrow> a \<noteq> self \<and> IsFinished (h a)) \<and>
    b \<noteq> self \<and> \<not> IsFinished (h b) \<longrightarrow>
      CanBeExecuted now h self = Returns False) \<and>
   (dependencies (h self) = pre @ Some self # post \<and>
    (\<forall>a. Some a \<in> set pre \<longrightarrow> a \<noteq> self \<and> IsFinished (h a)) \<longrightarrow>
      CanBeExecuted now h self = Undefined Relock) \<and>
   ((\<forall>a. Some a \<in> set (dependencies (h self)) \<longrightarrow> a \<noteq> self \<and> IsFinished (h a)) \<and>
    now < deadline (h self) \<longrightarrow>
      CanBeExecuted now h self = Returns False) \<and>
   ((\<forall>a. Some a \<in> set (dependencies (h self)) \<longrightarrow> a \<noteq> self \<and> IsFinished (h a)) \<and>
    deadline (h self) \<le> now \<and> triggers (h self) = pre @ Some b # post \<and>
    (\<forall>a. Some a \<in> set pre \<longrightarrow> a \<noteq> self \<and> \<not> IsFinished (h a)) \<and>
    b \<noteq> self \<and> IsFinished (h b) \<longrightarrow>
      CanBeExecuted now h self = Returns True) \<and>
   ((\<forall>a. Some a \<in> set (dependencies (h self)) \<longrightarrow> a \<noteq> self \<and> IsFinished (h a)) \<and>
    deadline (h self) \<le> now \<and> triggers (h self) = pre @ Some self # post \<and>
    (\<forall>a. Some a \<in> set pre \<longrightarrow> a \<noteq> self \<and> \<not> IsFinished (h a)) \<longrightarrow>
      CanBeExecuted now h self = Undefined Relock)"
proof -
  have passed: "dependencies_loop self h (dependencies (h self)) = Returns True"
    if "\<forall>a. Some a \<in> set (dependencies (h self)) \<longrightarrow> a \<noteq> self \<and> IsFinished (h a)"
  proof -
    from that have "Some self \<notin> set (dependencies (h self))" by blast
    from dependencies_loop_eq [OF this, of h] that show ?thesis by simp
  qed
  have plain: "Some self \<notin> set (dependencies (h self)) \<and> Some self \<notin> set (triggers (h self)) \<longrightarrow>
      CanBeExecuted now h self =
        Returns ((\<forall>a. Some a \<in> set (dependencies (h self)) \<longrightarrow> IsFinished (h a)) \<and>
                 deadline (h self) \<le> now \<and>
                 (triggers (h self) = [] \<or>
                  (\<exists>a. Some a \<in> set (triggers (h self)) \<and> IsFinished (h a))))"
    by (simp add: CanBeExecuted_eq)
  have dep_false: "dependencies (h self) = pre @ Some b # post \<and>
    (\<forall>a. Some a \<in> set pre \<longrightarrow> a \<noteq> self \<and> IsFinished (h a)) \<and>
    b \<noteq> self \<and> \<not> IsFinished (h b) \<longrightarrow>
      CanBeExecuted now h self = Returns False"
    by (simp add: CanBeExecuted_def dependencies_loop_stops)
  have dep_self: "dependencies (h self) = pre @ Some self # post \<and>
    (\<forall>a. Some a \<in> set pre \<longrightarrow> a \<noteq> self \<and> IsFinished (h a)) \<longrightarrow>
      CanBeExecuted now h self = Undefined Relock"
    by (simp add: CanBeExecuted_def dependencies_loop_stops)
  have early: "(\<forall>a. Some a \<in> set (dependencies (h self)) \<longrightarrow> a \<noteq> self \<and> IsFinished (h a)) \<and>
    now < deadline (h self) \<longrightarrow>
      CanBeExecuted now h self = Returns False"
    using passed by (simp add: CanBeExecuted_def)
  have trig_true: "(\<forall>a. Some a \<in> set (dependencies (h self)) \<longrightarrow> a \<noteq> self \<and> IsFinished (h a)) \<and>
    deadline (h self) \<le> now \<and> triggers (h self) = pre @ Some b # post \<and>
    (\<forall>a. Some a \<in> set pre \<longrightarrow> a \<noteq> self \<and> \<not> IsFinished (h a)) \<and>
    b \<noteq> self \<and> IsFinished (h b) \<longrightarrow>
      CanBeExecuted now h self = Returns True"
    using passed by (simp add: CanBeExecuted_def triggers_loop_stops)
  have trig_self: "(\<forall>a. Some a \<in> set (dependencies (h self)) \<longrightarrow> a \<noteq> self \<and> IsFinished (h a)) \<and>
    deadline (h self) \<le> now \<and> triggers (h self) = pre @ Some self # post \<and>
    (\<forall>a. Some a \<in> set pre \<longrightarrow> a \<noteq> self \<and> \<not> IsFinished (h a)) \<longrightarrow>
      CanBeExecuted now h self = Undefined Relock"
    using passed by (simp add: CanBeExecuted_def triggers_loop_stops)
  from plain dep_false dep_self early trig_true trig_self show ?thesis by (intro conjI)
qed

text \<open>
  Task \<open>0\<close> waits for the finished task \<open>1\<close> and has the triggers \<open>2\<close> (pending) and
  \<open>1\<close>, with time trigger \<open>5\<close>: it can be executed at time \<open>5\<close> and not at time \<open>4\<close>.
  With the pending task \<open>2\<close> as its first dependency it cannot be executed, although
  its next dependency and its only trigger are the task itself; before its time
  trigger it cannot be executed although its only trigger is the task itself; with the
  finished trigger \<open>1\<close> before the task itself among its triggers it can be executed.
  With itself as the dependency after the finished task \<open>1\<close>, or as the trigger after
  the pending task \<open>2\<close>, the call locks its own mutex again.
\<close>

theorem CanBeExecuted_order_witness:
  "CanBeExecuted 5
     (obj (update_obj 0 (\<lambda>t. t\<lparr>dependencies := [Some 1], triggers := [Some 2, Some 1],
                                 deadline := 5\<rparr>) (update_obj 1 CompleteTask all_pending))) 0
     = Returns True \<and>
   CanBeExecuted 4
     (obj (update_obj 0 (\<lambda>t. t\<lparr>dependencies := [Some 1], triggers := [Some 2, Some 1],
                                 deadline := 5\<rparr>) (update_obj 1 CompleteTask all_pending))) 0
     = Returns False \<and>
   CanBeExecuted 5
     (obj (update_obj 0 (\<lambda>t. t\<lparr>dependencies := [Some 2, Some 0], triggers := [Some 0]\<rparr>)
             all_pending)) 0
     = Returns False \<and>
   CanBeExecuted 4
     (obj (update_obj 0 (\<lambda>t. t\<lparr>triggers := [Some 0], deadline := 5\<rparr>) all_pending)) 0
     = Returns False \<and>
   CanBeExecuted 5
     (obj (update_obj 0 (\<lambda>t. t\<lparr>triggers := [Some 2, Some 1, Some 0]\<rparr>)
             (update_obj 1 CompleteTask all_pending))) 0
     = Returns True \<and>
   CanBeExecuted 5
     (obj (update_obj 0 (\<lambda>t. t\<lparr>dependencies := [Some 1, Some 0]\<rparr>)
             (update_obj 1 CompleteTask all_pending))) 0
     = Undefined Relock \<and>
   CanBeExecuted 5
     (obj (update_obj 0 (\<lambda>t. t\<lparr>triggers := [Some 2, Some 0]\<rparr>) all_pending)) 0
     = Undefined Relock"
proof -
  let ?h1 = "obj (update_obj 0 (\<lambda>t. t\<lparr>dependencies := [Some 1], triggers := [Some 2, Some 1],
                                 deadline := 5\<rparr>) (update_obj 1 CompleteTask all_pending))"
  let ?h2 = "obj (update_obj 0 (\<lambda>t. t\<lparr>dependencies := [Some 2, Some 0], triggers := [Some 0]\<rparr>)
             all_pending)"
  let ?h3 = "obj (update_obj 0 (\<lambda>t. t\<lparr>triggers := [Some 0], deadline := 5\<rparr>) all_pending)"
  let ?h4 = "obj (update_obj 0 (\<lambda>t. t\<lparr>triggers := [Some 2, Some 1, Some 0]\<rparr>)
             (update_obj 1 CompleteTask all_pending))"
  let ?h5 = "obj (update_obj 0 (\<lambda>t. t\<lparr>dependencies := [Some 1, Some 0]\<rparr>)
             (update_obj 1 CompleteTask all_pending))"
  let ?h6 = "obj (update_obj 0 (\<lambda>t. t\<lparr>triggers := [Some 2, Some 0]\<rparr>) all_pending)"
  have others: "Some 0 \<notin> set (dependencies (?h1 0)) \<and> Some 0 \<notin> set (triggers (?h1 0))"
    by (simp add: update_obj_def)
  have deps: "\<forall>a. Some a \<in> set (dependencies (?h1 0)) \<longrightarrow> IsFinished (?h1 a)"
    by (simp add: IsFinished_def update_obj_def CompleteTask_def)
  have trig: "\<exists>a. Some a \<in> set (triggers (?h1 0)) \<and> IsFinished (?h1 a)"
    by (rule exI [of _ 1]) (simp add: IsFinished_def update_obj_def CompleteTask_def)
  have dl: "deadline (?h1 0) = 5"
    by (simp add: update_obj_def)
  have "CanBeExecuted 5 ?h1 0 = Returns True"
    using CanBeExecuted_order [where h = ?h1 and self = 0 and now = 5, THEN conjunct1]
      others deps trig dl
    by simp
  moreover have "CanBeExecuted 4 ?h1 0 = Returns False"
    using CanBeExecuted_order [where h = ?h1 and self = 0 and now = 4, THEN conjunct1]
      others dl
    by simp
  moreover have "CanBeExecuted 5 ?h2 0 = Returns False"
    using CanBeExecuted_order [where h = ?h2 and self = 0 and now = 5 and pre = "[]" and b = 2
        and post = "[Some 0]", THEN conjunct2, THEN conjunct1]
    by (simp add: IsFinished_def update_obj_def all_pending_def pending_task_def)
  moreover have "CanBeExecuted 4 ?h3 0 = Returns False"
    using CanBeExecuted_order [where h = ?h3 and self = 0 and now = 4,
        THEN conjunct2, THEN conjunct2, THEN conjunct2, THEN conjunct1]
    by (simp add: IsFinished_def update_obj_def all_pending_def pending_task_def)
  moreover have "CanBeExecuted 5 ?h4 0 = Returns True"
    using CanBeExecuted_order [where h = ?h4 and self = 0 and now = 5 and pre = "[Some 2]"
        and b = 1 and post = "[Some 0]",
        THEN conjunct2, THEN conjunct2, THEN conjunct2, THEN conjunct2, THEN conjunct1]
    by (simp add: IsFinished_def update_obj_def CompleteTask_def all_pending_def pending_task_def)
  moreover have "CanBeExecuted 5 ?h5 0 = Undefined Relock"
    using CanBeExecuted_order [where h = ?h5 and self = 0 and now = 5 and pre = "[Some 1]"
        and post = "[]", THEN conjunct2, THEN conjunct2, THEN conjunct1]
    by (simp add: IsFinished_def update_obj_def CompleteTask_def all_pending_def pending_task_def)
  moreover have "CanBeExecuted 5 ?h6 0 = Undefined Relock"
    using CanBeExecuted_order [where h = ?h6 and self = 0 and now = 5 and pre = "[Some 2]"
        and post = "[]",
        THEN conjunct2, THEN conjunct2, THEN conjunct2, THEN conjunct2, THEN conjunct2]
    by (simp add: IsFinished_def update_obj_def all_pending_def pending_task_def)
  ultimately show ?thesis by simp
qed

text \<open>
  Task \<open>0\<close> was given itself as a dependency and then canceled. Its only dependency is
  finished, its time trigger is reached and it has no triggers, but \<open>CanBeExecuted\<close>
  does not return true: it locks the mutex of task \<open>0\<close> a second time.
\<close>

theorem CanBeExecuted_of_own_dependency:
  "dependencies (obj (update_obj 0 (\<lambda>t. Cancel (AddDependency (Some 0) t)) all_pending) 0) = [Some 0] \<and>
   IsFinished (obj (update_obj 0 (\<lambda>t. Cancel (AddDependency (Some 0) t)) all_pending) 0) \<and>
   deadline (obj (update_obj 0 (\<lambda>t. Cancel (AddDependency (Some 0) t)) all_pending) 0) \<le> 0 \<and>
   triggers (obj (update_obj 0 (\<lambda>t. Cancel (AddDependency (Some 0) t)) all_pending) 0) = [] \<and>
   CanBeExecuted 0 (obj (update_obj 0 (\<lambda>t. Cancel (AddDependency (Some 0) t)) all_pending)) 0
     = Undefined Relock"
  by (simp add: CanBeExecuted_def locked_IsFinished_def IsFinished_def update_obj_def Cancel_def
      AddDependency_def all_pending_def pending_task_def)

section \<open>How often a task is run\<close>




section \<open>Null handles\<close>

lemma dependencies_loop_null:
  "dependencies_loop self h (pre @ None # post) = dependencies_loop self h (pre @ post)"
proof (induction pre)
  case Nil
  show ?case by simp
next
  case (Cons d pre)
  then show ?case
    by (cases d) (auto simp: locked_IsFinished_def)
qed

lemma triggers_loop_null:
  "triggers_loop self h (pre @ None # post) = triggers_loop self h (pre @ post)"
proof (induction pre)
  case Nil
  show ?case by simp
next
  case (Cons d pre)
  then show ?case
    by (cases d) (auto simp: locked_IsFinished_def)
qed

lemma dependencies_loop_heap:
  "(\<forall>a. a \<noteq> self \<longrightarrow> IsFinished (h' a) = IsFinished (h a)) \<Longrightarrow>
   dependencies_loop self h' ds = dependencies_loop self h ds"
proof (induction ds)
  case Nil
  show ?case by simp
next
  case (Cons d ds)
  then show ?case
    by (cases d) (auto simp: locked_IsFinished_def)
qed

lemma triggers_loop_heap:
  "(\<forall>a. a \<noteq> self \<longrightarrow> IsFinished (h' a) = IsFinished (h a)) \<Longrightarrow>
   triggers_loop self h' ts = triggers_loop self h ts"
proof (induction ts)
  case Nil
  show ?case by simp
next
  case (Cons d ts)
  then show ?case
    by (cases d) (auto simp: locked_IsFinished_def)
qed

lemma triggers_loop_all_null:
  "(\<forall>p\<in>set ts. p = None) \<Longrightarrow> triggers_loop self h ts = Returns False"
  by (induction ts) simp_all

text \<open>
  C10. \<open>AddDependency\<close> and \<open>AddTrigger\<close> append a null pointer like any other. A null
  dependency, wherever it stands, does not change what \<open>CanBeExecuted\<close> does. A null
  trigger never counts as a finished trigger: beside other triggers it changes nothing,
  and a task whose triggers are all null is never found executable. \<open>CanBeExecuted\<close>
  never makes a member call through a null entry: whatever the sets hold, it returns a
  boolean or locks its own mutex again, and never dereferences a null pointer.
\<close>

theorem null_entries:
  "AddDependency None t = t\<lparr>dependencies := dependencies t @ [None]\<rparr> \<and>
   AddTrigger None t = t\<lparr>triggers := triggers t @ [None]\<rparr> \<and>
   CanBeExecuted now (h(self := t\<lparr>dependencies := pre @ None # post\<rparr>)) self =
     CanBeExecuted now (h(self := t\<lparr>dependencies := pre @ post\<rparr>)) self \<and>
   (pre @ post \<noteq> [] \<longrightarrow>
      CanBeExecuted now (h(self := t\<lparr>triggers := pre @ None # post\<rparr>)) self =
        CanBeExecuted now (h(self := t\<lparr>triggers := pre @ post\<rparr>)) self) \<and>
   ((\<forall>p\<in>set (triggers (h self)). p = None) \<and> triggers (h self) \<noteq> [] \<longrightarrow>
      CanBeExecuted now h self = Returns False \<or> CanBeExecuted now h self = Undefined Relock) \<and>
   CanBeExecuted now h self \<noteq> Undefined NullDereference"
proof -
  have deps: "CanBeExecuted now (h(self := t\<lparr>dependencies := pre @ None # post\<rparr>)) self =
     CanBeExecuted now (h(self := t\<lparr>dependencies := pre @ post\<rparr>)) self"
  proof -
    have "dependencies_loop self (h(self := t\<lparr>dependencies := pre @ None # post\<rparr>)) ds =
          dependencies_loop self (h(self := t\<lparr>dependencies := pre @ post\<rparr>)) ds" for ds
      by (rule dependencies_loop_heap) simp
    moreover have "triggers_loop self (h(self := t\<lparr>dependencies := pre @ None # post\<rparr>)) ts =
          triggers_loop self (h(self := t\<lparr>dependencies := pre @ post\<rparr>)) ts" for ts
      by (rule triggers_loop_heap) simp
    ultimately show ?thesis
      by (simp add: CanBeExecuted_def dependencies_loop_null cong: if_cong)
  qed
  have trigs: "pre @ post \<noteq> [] \<longrightarrow>
      CanBeExecuted now (h(self := t\<lparr>triggers := pre @ None # post\<rparr>)) self =
        CanBeExecuted now (h(self := t\<lparr>triggers := pre @ post\<rparr>)) self"
  proof
    assume ne: "pre @ post \<noteq> []"
    have "dependencies_loop self (h(self := t\<lparr>triggers := pre @ None # post\<rparr>)) ds =
          dependencies_loop self (h(self := t\<lparr>triggers := pre @ post\<rparr>)) ds" for ds
      by (rule dependencies_loop_heap) simp
    moreover have "triggers_loop self (h(self := t\<lparr>triggers := pre @ None # post\<rparr>)) ts =
          triggers_loop self (h(self := t\<lparr>triggers := pre @ post\<rparr>)) ts" for ts
      by (rule triggers_loop_heap) simp
    ultimately show "CanBeExecuted now (h(self := t\<lparr>triggers := pre @ None # post\<rparr>)) self =
        CanBeExecuted now (h(self := t\<lparr>triggers := pre @ post\<rparr>)) self"
      using ne by (auto simp: CanBeExecuted_def triggers_loop_null cong: if_cong)
  qed
  have only_null: "(\<forall>p\<in>set (triggers (h self)). p = None) \<and> triggers (h self) \<noteq> [] \<longrightarrow>
      CanBeExecuted now h self = Returns False \<or> CanBeExecuted now h self = Undefined Relock"
  proof
    assume a: "(\<forall>p\<in>set (triggers (h self)). p = None) \<and> triggers (h self) \<noteq> []"
    then have t: "triggers_loop self h (triggers (h self)) = Returns False"
      by (simp add: triggers_loop_all_null)
    from dependencies_loop_outcome [of self h "dependencies (h self)"] a t
    show "CanBeExecuted now h self = Returns False \<or> CanBeExecuted now h self = Undefined Relock"
      by (auto simp: CanBeExecuted_def)
  qed
  have no_null: "CanBeExecuted now h self \<noteq> Undefined NullDereference"
    using CanBeExecuted_outcome [of now h self] by auto
  show ?thesis
    using deps trigs only_null no_null
    by (simp add: AddDependency_def AddTrigger_def)
qed

theorem null_entries_witness:
  "CanBeExecuted 0 (obj (update_obj 0 (AddTrigger None) all_pending)) 0 = Returns False \<and>
   CanBeExecuted 0 ((obj all_pending)(0 := pending_task\<lparr>dependencies := [] @ None # []\<rparr>)) 0
     = Returns True \<and>
   CanBeExecuted 0 ((obj (update_obj 1 CompleteTask all_pending))
       (0 := pending_task\<lparr>triggers := [Some 1] @ None # []\<rparr>)) 0 = Returns True"
proof -
  let ?h = "obj (update_obj 0 (AddTrigger None) all_pending)"
  have "(\<forall>p\<in>set (triggers (?h 0)). p = None) \<and> triggers (?h 0) \<noteq> []"
    by (simp add: update_obj_def AddTrigger_def all_pending_def pending_task_def)
  moreover have "CanBeExecuted 0 ?h 0 \<noteq> Undefined Relock"
    by (simp add: CanBeExecuted_eq update_obj_def AddTrigger_def all_pending_def pending_task_def)
  ultimately have "CanBeExecuted 0 ?h 0 = Returns False"
    using null_entries [where h = ?h and self = 0 and now = 0] by blast
  moreover have "CanBeExecuted 0 ((obj all_pending)(0 := pending_task\<lparr>dependencies := [] @ None # []\<rparr>)) 0
      = Returns True"
    using null_entries [where t = pending_task and now = 0 and h = "obj all_pending"
        and self = 0 and pre = "[]" and post = "[]"]
    by (simp add: CanBeExecuted_eq pending_task_def)
  moreover have "CanBeExecuted 0 ((obj (update_obj 1 CompleteTask all_pending))
       (0 := pending_task\<lparr>triggers := [Some 1] @ None # []\<rparr>)) 0 = Returns True"
    using null_entries [where t = pending_task and now = 0
        and h = "obj (update_obj 1 CompleteTask all_pending)" and self = 0
        and pre = "[Some 1]" and post = "[]"]
    by (simp add: CanBeExecuted_eq IsFinished_def update_obj_def CompleteTask_def
        all_pending_def pending_task_def)
  ultimately show ?thesis by simp
qed

section \<open>Put\<close>

text \<open>
  C9. \<open>Put\<close> returns false exactly when the queue is closed; then the queue (its buffer
  included) is unchanged; when it returns true the handle has been appended at the tail
  and the queue is still open.
\<close>

theorem Put_closed_iff:
  "(fst (Put task q) = False \<longleftrightarrow> IsClosed q) \<and>
   (fst (Put task q) = False \<longrightarrow> snd (Put task q) = q) \<and>
   (fst (Put task q) = True \<longrightarrow>
      buffer (snd (Put task q)) = buffer q @ [task] \<and>
      stopped (snd (Put task q)) = stopped q)"
  by (simp add: Put_def IsClosed_def)

theorem Put_closed_iff_witness:
  "fst (Put (Some (7::nat)) \<lparr>stopped = True, buffer = [Some 1]\<rparr>) = False \<and>
   snd (Put (Some (7::nat)) \<lparr>stopped = True, buffer = [Some 1]\<rparr>) =
     \<lparr>stopped = True, buffer = [Some 1]\<rparr> \<and>
   fst (Put (Some (7::nat)) \<lparr>stopped = False, buffer = [Some 1]\<rparr>) = True \<and>
   buffer (snd (Put (Some (7::nat)) \<lparr>stopped = False, buffer = [Some 1]\<rparr>)) = [Some 1, Some 7]"
  using Put_closed_iff [of "Some (7::nat)" "\<lparr>stopped = True, buffer = [Some 1]\<rparr>"]
    Put_closed_iff [of "Some (7::nat)" "\<lparr>stopped = False, buffer = [Some 1]\<rparr>"]
  by (simp add: IsClosed_def)

end
